theory Spec2Isabelle
  imports Complex_Main "HOL-Library.Multiset"
begin

section \<open>Data frames and the store of notebook objects\<close>

text \<open>
  The notebook \<^verbatim>\<open>Household_energy_student_version.ipynb\<close> has three code cells with
  statements (the download cell, the import cell and the electricity ingestion cell);
  its other twenty-three code cells hold only the comments
  \<^verbatim>\<open>### BEGIN SOLUTION\<close> and \<^verbatim>\<open>### END SOLUTION\<close>.

  A pandas data frame is an index (one label per row) and named columns. A frame read from
  a CSV file has the positions \<open>0, 1, ...\<close> as its index; the ingestion cell replaces them
  by timestamps. Cells are integers, as the \<^verbatim>\<open>UNIX_TS\<close> column is. A timestamp is
  numpy's \<^verbatim>\<open>datetime64[ns]\<close>: a count of nanoseconds since 1970-01-01T00:00:00 in 64 bits,
  or the value \<^verbatim>\<open>NaT\<close>, not a time.
\<close>

datatype datetime = Datetime_ns int | NaT

datatype label = Pos nat | Stamp datetime

record frame =
  index :: "label list"
  columns :: "(string \<times> int list) list"

datatype py_error =
  NameError string
| KeyError string
| ValueError string
| OutOfBoundsDatetime string
| EmptyDataError
| FileNotFoundError
| ParserError

text \<open>
  Python names refer to objects, and \<^verbatim>\<open>energy_data.index = ...\<close> changes an object in
  place, so the model keeps an explicit store: the objects by address, and the address each
  global name of the notebook is bound to.
\<close>

type_synonym ref = nat

record store =
  heap :: "frame list"
  vars :: "string \<rightharpoonup> ref"

definition alloc :: "frame \<Rightarrow> store \<Rightarrow> ref \<times> store" where
  "alloc f st = (length (heap st), st\<lparr>heap := heap st @ [f]\<rparr>)"

definition bind_var :: "string \<Rightarrow> ref \<Rightarrow> store \<Rightarrow> store" where
  "bind_var x r st = st\<lparr>vars := (vars st)(x \<mapsto> r)\<rparr>"

definition deref :: "string \<Rightarrow> store \<Rightarrow> py_error + (ref \<times> frame)" where
  "deref x st =
     (case vars st x of
        None \<Rightarrow> Inl (NameError x)
      | Some r \<Rightarrow> if r < length (heap st) then Inr (r, heap st ! r) else Inl (NameError x))"

definition frame_of :: "string \<Rightarrow> store \<Rightarrow> frame option" where
  "frame_of x st = (case deref x st of Inl e \<Rightarrow> None | Inr (r, f) \<Rightarrow> Some f)"

text \<open>
  A statement maps the store to the store it leaves and the exception it raised, if any.
  An exception ends the cell; the objects and names stay as they were when it was raised.
\<close>

type_synonym outcome = "py_error option \<times> store"

definition and_then :: "(store \<Rightarrow> outcome) \<Rightarrow> (store \<Rightarrow> outcome) \<Rightarrow> store \<Rightarrow> outcome" where
  "and_then f g st = (case f st of (None, st') \<Rightarrow> g st' | (Some e, st') \<Rightarrow> (Some e, st'))"

section \<open>The electricity ingestion cell\<close>

text \<open>
  \<^verbatim>\<open>
  raw_data = pd.read_csv("Electricity_simple.csv")
  energy_data = raw_data.copy()
  energy_data.index = pd.to_datetime(energy_data['UNIX_TS'],unit='s').values
  energy_data = energy_data.drop(labels='UNIX_TS',axis=1)
  \<close>
  \<^verbatim>\<open>pd.read_csv\<close> is pandas' parser and no code of the notebook, so what the call gives is
  the input of the cell: an exception (no file of that name, \<^verbatim>\<open>EmptyDataError\<close> for a file
  without columns, a line the parser refuses) or the frame read. In a frame the parser
  returns, every column has one cell per row and no two columns have one name: a name the
  header repeats is renamed (\<^verbatim>\<open>UNIX_TS.1\<close>).
\<close>

definition stmt_read_csv :: "py_error + frame \<Rightarrow> store \<Rightarrow> outcome" where
  "stmt_read_csv read st =
     (case read of
        Inl e \<Rightarrow> (Some e, st)
      | Inr f \<Rightarrow> (case alloc f st of (r, st') \<Rightarrow> (None, bind_var ''raw_data'' r st')))"

text \<open>\<^verbatim>\<open>DataFrame.copy()\<close> is a deep copy: a new object with the same content.\<close>

definition stmt_copy :: "store \<Rightarrow> outcome" where
  "stmt_copy st =
     (case deref ''raw_data'' st of
        Inl e \<Rightarrow> (Some e, st)
      | Inr (r, f) \<Rightarrow> (case alloc f st of (r', st') \<Rightarrow> (None, bind_var ''energy_data'' r' st')))"

text \<open>
  \<^verbatim>\<open>pd.to_datetime(x, unit='s')\<close>: the number counts seconds since the epoch. The result
  counts nanoseconds in 64 bits, so a second count from -9223372036 to 9223372036 is
  converted and one beyond raises \<^verbatim>\<open>OutOfBoundsDatetime\<close>; the least 64-bit integer is
  read as the missing value and gives \<^verbatim>\<open>NaT\<close>.
\<close>

definition to_datetime_s :: "int \<Rightarrow> py_error + datetime" where
  "to_datetime_s s =
     (if s = - 9223372036854775808 then Inr NaT
      else if - 9223372036 \<le> s \<and> s \<le> 9223372036 then Inr (Datetime_ns (s * 1000000000))
      else Inl (OutOfBoundsDatetime ''cannot convert input with unit s''))"

text \<open>The conversion of a column raises at the first cell that is out of bounds.\<close>

fun to_datetime :: "int list \<Rightarrow> py_error + datetime list" where
  "to_datetime [] = Inr []"
| "to_datetime (s # ss) =
     (case to_datetime_s s of
        Inl e \<Rightarrow> Inl e
      | Inr d \<Rightarrow> (case to_datetime ss of Inl e \<Rightarrow> Inl e | Inr ds \<Rightarrow> Inr (d # ds)))"

text \<open>
  The assignment to \<^verbatim>\<open>.index\<close> first evaluates its right-hand side.
  \<^verbatim>\<open>energy_data['UNIX_TS']\<close> is a KeyError when no column has the label, the column when
  one has, and a frame when several have, which \<^verbatim>\<open>pd.to_datetime\<close> refuses with a
  ValueError. The column is converted, and the new index is written into the object
  \<^verbatim>\<open>energy_data\<close> refers to; pandas refuses an index of another length than the frame.
  When any of this raises, the object is as it was.
\<close>

definition stmt_set_index :: "store \<Rightarrow> outcome" where
  "stmt_set_index st =
     (case deref ''energy_data'' st of
        Inl e \<Rightarrow> (Some e, st)
      | Inr (r, f) \<Rightarrow>
          (case filter (\<lambda>col. fst col = ''UNIX_TS'') (columns f) of
             [] \<Rightarrow> (Some (KeyError ''UNIX_TS''), st)
           | [col] \<Rightarrow>
               (case to_datetime (snd col) of
                  Inl e \<Rightarrow> (Some e, st)
                | Inr ds \<Rightarrow>
                    if length ds \<noteq> length (index f) then (Some (ValueError ''Length mismatch''), st)
                    else (None, st\<lparr>heap := (heap st)[r := f\<lparr>index := map Stamp ds\<rparr>]\<rparr>))
           | col # col' # cols \<Rightarrow> (Some (ValueError ''cannot assemble with duplicate keys''), st)))"

text \<open>\<^verbatim>\<open>drop\<close> without \<^verbatim>\<open>inplace\<close> returns a new frame, which the name is then bound to.\<close>

definition stmt_drop :: "store \<Rightarrow> outcome" where
  "stmt_drop st =
     (case deref ''energy_data'' st of
        Inl e \<Rightarrow> (Some e, st)
      | Inr (r, f) \<Rightarrow>
          if ''UNIX_TS'' \<notin> set (map fst (columns f)) then (Some (KeyError ''UNIX_TS''), st)
          else (case alloc (f\<lparr>columns := filter (\<lambda>col. fst col \<noteq> ''UNIX_TS'') (columns f)\<rparr>) st of
                  (r', st') \<Rightarrow> (None, bind_var ''energy_data'' r' st')))"

definition ingestion_cell :: "py_error + frame \<Rightarrow> store \<Rightarrow> outcome" where
  "ingestion_cell read =
     and_then (stmt_read_csv read) (and_then stmt_copy (and_then stmt_set_index stmt_drop))"

text \<open>
  The cells that follow the ingestion cell are empty in the notebook. Whatever is written
  there works on the table through the name \<^verbatim>\<open>energy_data\<close>: it either changes the
  object the name refers to (an assignment to a column or to the index, a method called
  with \<^verbatim>\<open>inplace=True\<close>) or binds the name to a new frame computed from it
  (\<^verbatim>\<open>energy_data = energy_data.resample(...)\<close>). A later transformation is any function on
  frames applied in one of these two ways; it may raise, and one in place may raise with
  the object half changed.
\<close>

datatype transformation =
  In_place "frame \<Rightarrow> py_error option \<times> frame"
| Rebind "frame \<Rightarrow> py_error + frame"

fun apply_transformation :: "transformation \<Rightarrow> store \<Rightarrow> outcome" where
  "apply_transformation (In_place g) st =
     (case deref ''energy_data'' st of
        Inl e \<Rightarrow> (Some e, st)
      | Inr (r, f) \<Rightarrow> (case g f of (err, f') \<Rightarrow> (err, st\<lparr>heap := (heap st)[r := f']\<rparr>)))"
| "apply_transformation (Rebind g) st =
     (case deref ''energy_data'' st of
        Inl e \<Rightarrow> (Some e, st)
      | Inr (r, f) \<Rightarrow>
          (case g f of
             Inl e \<Rightarrow> (Some e, st)
           | Inr f' \<Rightarrow> (case alloc f' st of (r', st') \<Rightarrow> (None, bind_var ''energy_data'' r' st'))))"

fun later_cells :: "transformation list \<Rightarrow> store \<Rightarrow> outcome" where
  "later_cells [] st = (None, st)"
| "later_cells (t # ts) st = and_then (apply_transformation t) (later_cells ts) st"

text \<open>
  The invariant behind the frame property: the two names refer to different objects, and
  the one \<^verbatim>\<open>raw_data\<close> refers to holds the given content.
\<close>

definition separate :: "frame \<Rightarrow> store \<Rightarrow> bool" where
  "separate raw st \<longleftrightarrow>
     (\<exists>r e. vars st ''raw_data'' = Some r \<and> vars st ''energy_data'' = Some e \<and> r \<noteq> e \<and>
        r < length (heap st) \<and> e < length (heap st) \<and> heap st ! r = raw)"

section \<open>The warning filters and the cells of the notebook\<close>

text \<open>
  Python's \<^verbatim>\<open>warnings\<close> module keeps a list of filters. A warning takes the action of the
  first filter that matches it, and the default action when none does; under the action
  \<^verbatim>\<open>ignore\<close> it is not shown. A filter matches by category, message, module and line,
  which the model keeps as a predicate on warnings.
\<close>

datatype action = Ignore | Default | Always | Error | Module | Once

record warning =
  category :: string
  message :: string

record wfilter =
  act :: action
  matches :: "warning \<Rightarrow> bool"

fun disposition :: "wfilter list \<Rightarrow> warning \<Rightarrow> action" where
  "disposition [] w = Default"
| "disposition (f # fs) w = (if matches f w then act f else disposition fs w)"

text \<open>
  \<^verbatim>\<open>warnings.filterwarnings(action)\<close> with no further argument puts a filter that matches
  every warning in front of the list.
\<close>

definition filterwarnings :: "action \<Rightarrow> wfilter list \<Rightarrow> wfilter list" where
  "filterwarnings a fs = \<lparr>act = a, matches = (\<lambda>w. True)\<rparr> # fs"

text \<open>
  For the filters, a statement of the notebook is an import (the imported module may change
  the filter list as it likes), a call of \<^verbatim>\<open>warnings.filterwarnings\<close>, or any other
  statement, which leaves the list alone. The string of a plain statement is its source
  text, kept for reading only.
\<close>

datatype stmt = Import string | Filterwarnings action | Statement string

text \<open>
  The kernel's state: the filter list, and the warnings shown so far, each with the number
  of its cell and of its statement in the cell.
\<close>

record kernel =
  filters :: "wfilter list"
  shown :: "(nat \<times> nat \<times> warning) list"

text \<open>
  Two things the source does not fix are parameters: \<open>on_import m\<close>, what importing
  module \<open>m\<close> does to the filter list, and \<open>raised i j\<close>, the warnings statement \<open>j\<close> of
  cell \<open>i\<close> raises on the given input. A raised warning is shown unless the filters in
  force when the statement starts ignore it.

  Under the action \<^verbatim>\<open>error\<close> a warning is raised as an exception, which stops the run. The
  model counts such a warning as shown and goes on: what a stopped run has shown is an
  initial part of what the model shows.
\<close>

definition exec_stmt ::
  "(string \<Rightarrow> wfilter list \<Rightarrow> wfilter list) \<Rightarrow> (nat \<Rightarrow> nat \<Rightarrow> warning list) \<Rightarrow>
     nat \<Rightarrow> nat \<Rightarrow> stmt \<Rightarrow> kernel \<Rightarrow> kernel" where
  "exec_stmt on_import raised i j s k =
     (let k' = k\<lparr>shown := shown k @
                  map (\<lambda>w. (i, j, w)) (filter (\<lambda>w. disposition (filters k) w \<noteq> Ignore) (raised i j))\<rparr>
      in case s of
           Import m \<Rightarrow> k'\<lparr>filters := on_import m (filters k')\<rparr>
         | Filterwarnings a \<Rightarrow> k'\<lparr>filters := filterwarnings a (filters k')\<rparr>
         | Statement t \<Rightarrow> k')"

fun exec_cell ::
  "(string \<Rightarrow> wfilter list \<Rightarrow> wfilter list) \<Rightarrow> (nat \<Rightarrow> nat \<Rightarrow> warning list) \<Rightarrow>
     nat \<Rightarrow> nat \<Rightarrow> stmt list \<Rightarrow> kernel \<Rightarrow> kernel" where
  "exec_cell on_import raised i j [] k = k"
| "exec_cell on_import raised i j (s # ss) k =
     exec_cell on_import raised i (Suc j) ss (exec_stmt on_import raised i j s k)"

fun run_cells ::
  "(string \<Rightarrow> wfilter list \<Rightarrow> wfilter list) \<Rightarrow> (nat \<Rightarrow> nat \<Rightarrow> warning list) \<Rightarrow>
     nat \<Rightarrow> stmt list list \<Rightarrow> kernel \<Rightarrow> kernel" where
  "run_cells on_import raised i [] k = k"
| "run_cells on_import raised i (c # cs) k =
     run_cells on_import raised (Suc i) cs (exec_cell on_import raised i 0 c k)"

text \<open>
  The download cell: three imports and \<^verbatim>\<open>path = Path()\<close>, then
  \<^verbatim>\<open>import warnings\<close> and \<^verbatim>\<open>warnings.filterwarnings("ignore")\<close>, then the dictionary
  of files and the download loop.
\<close>

definition download_cell :: "stmt list" where
  "download_cell =
     [Import ''urllib.request'', Import ''pathlib'', Import ''os'', Statement ''path = Path()'',
      Import ''warnings'', Filterwarnings Ignore,
      Statement ''files = {...}'', Statement ''for key,value in files.items(): ...'']"

text \<open>
  The import cell: the four library imports, then \<^verbatim>\<open>import warnings\<close> and
  \<^verbatim>\<open>warnings.filterwarnings("ignore")\<close>, then the display format.
\<close>

definition import_cell :: "stmt list" where
  "import_cell =
     [Import ''numpy'', Import ''pandas'', Import ''matplotlib.pyplot'', Import ''seaborn'',
      Import ''warnings'', Filterwarnings Ignore,
      Statement ''pd.options.display.float_format = ...'']"

text \<open>The four statements of the ingestion cell, and a solution cell, which has none.\<close>

definition ingestion_stmts :: "stmt list" where
  "ingestion_stmts =
     [Statement ''raw_data = pd.read_csv(...)'', Statement ''energy_data = raw_data.copy()'',
      Statement ''energy_data.index = pd.to_datetime(...).values'',
      Statement ''energy_data = energy_data.drop(...)'']"

definition solution_cell :: "stmt list" where
  "solution_cell = []"

definition notebook :: "stmt list list" where
  "notebook = [download_cell, import_cell, ingestion_stmts] @ replicate 23 solution_cell"

definition run_notebook ::
  "(string \<Rightarrow> wfilter list \<Rightarrow> wfilter list) \<Rightarrow> (nat \<Rightarrow> nat \<Rightarrow> warning list) \<Rightarrow>
     wfilter list \<Rightarrow> kernel" where
  "run_notebook on_import raised fs = run_cells on_import raised 0 notebook \<lparr>filters = fs, shown = []\<rparr>"

text \<open>A statement that cannot change the filters, and a filter list that ignores every warning.\<close>

fun plain :: "stmt \<Rightarrow> bool" where
  "plain (Statement t) = True"
| "plain s = False"

definition quiet :: "wfilter list \<Rightarrow> bool" where
  "quiet fs \<longleftrightarrow> (\<forall>w. disposition fs w = Ignore)"

section \<open>The split by cutoff and the zero-value fill\<close>

text \<open>
  Modelled from the spec: the Split Manager. The notebook's cell for the train/test split
  is empty; its text reserves the last month as the test set. Section 4.4 of the spec gives
  the contract: the train table is the rows strictly before the cutoff, the test table the
  rows from the cutoff onward. A row is a timestamp, in seconds since the epoch, with the
  values of the row.
\<close>

definition split_manager :: "int \<Rightarrow> (int \<times> 'a) list \<Rightarrow> (int \<times> 'a) list \<times> (int \<times> 'a) list" where
  "split_manager cutoff table =
     (filter (\<lambda>r. fst r < cutoff) table, filter (\<lambda>r. cutoff \<le> fst r) table)"

text \<open>
  Modelled from the spec: what the Cleaner takes for a defect. The notebook's cell for the
  zero-value fill is empty. Section 4.1 of the spec: a consumption of 0 is a sensor dropout
  and not a reading; the value carried forward is the last reading that is neither zero nor
  null. A reading is \<open>None\<close> when it is null.
\<close>

definition defect :: "'a::zero option \<Rightarrow> bool" where
  "defect v \<longleftrightarrow> v = None \<or> v = Some 0"

text \<open>
  Modelled from the spec: last-observed-value carry-forward over the rows in their order,
  which is the order of time. The first argument is the last reading seen that is no
  defect.
\<close>

fun carry_forward :: "'a::zero option \<Rightarrow> (int \<times> 'a option) list \<Rightarrow> (int \<times> 'a option) list" where
  "carry_forward prev [] = []"
| "carry_forward prev ((t, v) # rows) =
     (if defect v then (t, prev) # carry_forward prev rows
      else (t, v) # carry_forward v rows)"

text \<open>
  Modelled from the spec: the zero-value fill of the Cleaner. A defect at the start of the
  series has no prior value; the spec asks for an explicit policy and names dropping the
  leading rows, which is the policy taken here.
\<close>

definition zero_fill :: "(int \<times> 'a::zero option) list \<Rightarrow> (int \<times> 'a option) list" where
  "zero_fill s = carry_forward None (dropWhile (\<lambda>r. defect (snd r)) s)"

section \<open>Properties of the ingestion cell\<close>

lemma to_datetime_in_bounds:
  "list_all (\<lambda>s. - 9223372036 \<le> s \<and> s \<le> 9223372036) ts \<Longrightarrow>
     to_datetime ts = Inr (map (\<lambda>s. Datetime_ns (s * 1000000000)) ts)"
  by (induction ts) (auto simp: to_datetime_s_def)

lemma to_datetime_length: "to_datetime ts = Inr ds \<Longrightarrow> length ds = length ts"
  by (induction ts arbitrary: ds) (auto split: sum.splits)

text \<open>
  The store the cell leaves for a frame with one \<^verbatim>\<open>UNIX_TS\<close> column within the bounds,
  whatever its other columns: three objects, the frame read, the copy with its new index,
  and the frame without the column, which \<^verbatim>\<open>energy_data\<close> is bound to.
\<close>

lemma ingestion_cell_store:
  assumes "filter (\<lambda>col. fst col = ''UNIX_TS'') cols = [(''UNIX_TS'', ts)]"
    and "length ts = length idx"
    and "list_all (\<lambda>s. - 9223372036 \<le> s \<and> s \<le> 9223372036) ts"
  shows "ingestion_cell (Inr \<lparr>index = idx, columns = cols\<rparr>) st =
    (None, st\<lparr>heap := heap st @
              [\<lparr>index = idx, columns = cols\<rparr>,
               \<lparr>index = map (\<lambda>s. Stamp (Datetime_ns (s * 1000000000))) ts, columns = cols\<rparr>,
               \<lparr>index = map (\<lambda>s. Stamp (Datetime_ns (s * 1000000000))) ts,
                columns = filter (\<lambda>col. fst col \<noteq> ''UNIX_TS'') cols\<rparr>],
            vars := (vars st)(''raw_data'' \<mapsto> length (heap st),
                              ''energy_data'' \<mapsto> length (heap st) + 2)\<rparr>)"
proof -
  have "(''UNIX_TS'', ts) \<in> set (filter (\<lambda>col. fst col = ''UNIX_TS'') cols)"
    using assms(1) by simp
  then have mem: "''UNIX_TS'' \<in> fst ` set cols"
    by force
  show ?thesis
    using mem assms(1,2) to_datetime_in_bounds [OF assms(3)]
    by (simp add: ingestion_cell_def and_then_def stmt_read_csv_def stmt_copy_def
        stmt_set_index_def stmt_drop_def alloc_def bind_var_def deref_def
        nth_append list_update_append comp_def)
qed

lemma and_then_keeps:
  assumes "P (snd (f st))" and "\<And>s. P s \<Longrightarrow> P (snd (g s))"
  shows "P (snd (and_then f g st))"
  using assms by (cases "f st") (auto simp: and_then_def split: option.splits)

lemma separate_after_copy:
  "separate f (snd (and_then (stmt_read_csv (Inr f)) stmt_copy st))"
  by (simp add: and_then_def stmt_read_csv_def stmt_copy_def alloc_def bind_var_def deref_def
      separate_def nth_append)

lemma separate_set_index: "separate raw st \<Longrightarrow> separate raw (snd (stmt_set_index st))"
  by (auto simp: separate_def stmt_set_index_def deref_def split: list.splits sum.splits)

lemma separate_drop: "separate raw st \<Longrightarrow> separate raw (snd (stmt_drop st))"
  by (auto simp: separate_def stmt_drop_def deref_def alloc_def bind_var_def nth_append)

lemma separate_step:
  assumes "separate raw st"
  shows "separate raw (snd (apply_transformation t st))"
proof -
  from assms obtain r e where h: "vars st ''raw_data'' = Some r" "vars st ''energy_data'' = Some e"
    "r \<noteq> e" "r < length (heap st)" "e < length (heap st)" "heap st ! r = raw"
    unfolding separate_def by blast
  show ?thesis
  proof (cases t)
    case (In_place g)
    then show ?thesis using h
      by (auto simp: separate_def deref_def split: prod.splits)
  next
    case (Rebind g)
    then show ?thesis using h
      by (auto simp: separate_def deref_def alloc_def bind_var_def nth_append split: sum.splits)
  qed
qed

lemma separate_later: "separate raw st \<Longrightarrow> separate raw (snd (later_cells ts st))"
proof (induction ts arbitrary: st)
  case Nil
  then show ?case by simp
next
  case (Cons t ts)
  show ?case
    unfolding later_cells.simps
    by (rule and_then_keeps) (simp_all add: separate_step Cons)
qed

lemma and_then_assoc: "and_then (and_then f g) h = and_then f (and_then g h)"
  by (auto simp: and_then_def fun_eq_iff split: prod.splits option.splits)

lemma separate_ingestion: "separate f (snd (ingestion_cell (Inr f) st))"
proof -
  have "ingestion_cell (Inr f) =
      and_then (and_then (stmt_read_csv (Inr f)) stmt_copy) (and_then stmt_set_index stmt_drop)"
    by (simp add: ingestion_cell_def and_then_assoc)
  moreover have "separate f
      (snd (and_then (and_then (stmt_read_csv (Inr f)) stmt_copy)
              (and_then stmt_set_index stmt_drop) st))"
  proof (rule and_then_keeps)
    show "separate f (snd (and_then (stmt_read_csv (Inr f)) stmt_copy st))"
      by (rule separate_after_copy)
    show "separate f (snd (and_then stmt_set_index stmt_drop s))"
      if "separate f s" for s
      by (rule and_then_keeps) (simp_all add: that separate_set_index separate_drop)
  qed
  ultimately show ?thesis by simp
qed

lemma separate_frame_of: "separate raw st \<Longrightarrow> frame_of ''raw_data'' st = Some raw"
  by (auto simp: separate_def frame_of_def deref_def)

lemma unread_stops:
  "and_then (ingestion_cell (Inl e)) k st = (Some e, st)"
  by (simp add: ingestion_cell_def and_then_def stmt_read_csv_def)

text \<open>
  Claim C8. The raw input is not changed by the cleaning. Whatever \<^verbatim>\<open>pd.read_csv\<close>
  gives, the table under the name \<^verbatim>\<open>raw_data\<close> after the first statement is the frame
  read (and what it was before, when the file could not be read), and it is the same table
  after the ingestion cell and any later transformations of \<^verbatim>\<open>energy_data\<close>, in
  place or by rebinding, whether they run to the end or stop with an exception:
  \<^verbatim>\<open>energy_data\<close> was made by \<^verbatim>\<open>raw_data.copy()\<close>, so the two names never refer to one
  object.
\<close>

theorem raw_data_untouched:
  "frame_of ''raw_data'' (snd (stmt_read_csv read st)) =
     (case read of Inr f \<Rightarrow> Some f | Inl e \<Rightarrow> frame_of ''raw_data'' st) \<and>
   frame_of ''raw_data'' (snd (and_then (ingestion_cell read) (later_cells later) st)) =
     frame_of ''raw_data'' (snd (stmt_read_csv read st))"
proof (cases read)
  case (Inl e)
  then show ?thesis
    by (simp add: unread_stops stmt_read_csv_def)
next
  case (Inr f)
  have before: "frame_of ''raw_data'' (snd (stmt_read_csv (Inr f) st)) = Some f"
    by (simp add: stmt_read_csv_def alloc_def frame_of_def deref_def bind_var_def)
  have "separate f (snd (and_then (ingestion_cell (Inr f)) (later_cells later) st))"
    by (rule and_then_keeps) (simp_all add: separate_ingestion separate_later)
  then have "frame_of ''raw_data'' (snd (and_then (ingestion_cell (Inr f)) (later_cells later) st)) =
      Some f"
    by (rule separate_frame_of)
  with before Inr show ?thesis by simp
qed

theorem raw_data_untouched_witness:
  "frame_of ''raw_data''
     (snd (and_then
        (ingestion_cell (Inr \<lparr>index = [Pos 0, Pos 1],
           columns = [(''UNIX_TS'', [0, 60]), (''Consumption'', [5, 7])]\<rparr>))
        (later_cells [In_place (\<lambda>f. (None, f\<lparr>columns := []\<rparr>)),
                      Rebind (\<lambda>f. Inr (f\<lparr>index := []\<rparr>))])
        \<lparr>heap = [], vars = Map.empty\<rparr>)) =
     Some \<lparr>index = [Pos 0, Pos 1],
           columns = [(''UNIX_TS'', [0, 60]), (''Consumption'', [5, 7])]\<rparr>"
  using raw_data_untouched [of "Inr \<lparr>index = [Pos 0, Pos 1],
           columns = [(''UNIX_TS'', [0, 60]), (''Consumption'', [5, 7])]\<rparr>"
        "\<lparr>heap = [], vars = Map.empty\<rparr>"
        "[In_place (\<lambda>f. (None, f\<lparr>columns := []\<rparr>)), Rebind (\<lambda>f. Inr (f\<lparr>index := []\<rparr>))]"]
  by simp

text \<open>
  What the copy is for: were both names bound to one object (address 0 below), the
  assignment to \<^verbatim>\<open>energy_data.index\<close> would change the table under \<^verbatim>\<open>raw_data\<close>.
\<close>

lemma alias_would_change_raw_data:
  "frame_of ''raw_data''
     (snd (stmt_set_index (bind_var ''energy_data'' 0
        \<lparr>heap = [\<lparr>index = [Pos 0, Pos 1],
                  columns = [(''UNIX_TS'', [0, 60]), (''Consumption'', [5, 7])]\<rparr>],
         vars = [''raw_data'' \<mapsto> 0]\<rparr>))) =
   Some \<lparr>index = [Stamp (Datetime_ns 0), Stamp (Datetime_ns 60000000000)],
         columns = [(''UNIX_TS'', [0, 60]), (''Consumption'', [5, 7])]\<rparr>"
  by (simp add: stmt_set_index_def bind_var_def deref_def frame_of_def to_datetime_s_def)

text \<open>
  Claim C9, as amended. For a file of the documented shape, a \<^verbatim>\<open>UNIX_TS\<close> column and
  a consumption column in either order, whose second counts lie from -9223372036 to
  9223372036, the ingestion cell runs to its end; the index of \<^verbatim>\<open>energy_data\<close> is then,
  row by row, the instant that many whole seconds after the epoch, the \<^verbatim>\<open>UNIX_TS\<close>
  column is gone, and the table holds the consumption values only.
\<close>

theorem ingestion_index_and_columns:
  assumes "cols = [(''UNIX_TS'', ts), (name, vs)] \<or> cols = [(name, vs), (''UNIX_TS'', ts)]"
    and "name \<noteq> ''UNIX_TS''"
    and "length ts = length idx"
    and "list_all (\<lambda>s. - 9223372036 \<le> s \<and> s \<le> 9223372036) ts"
  shows "fst (ingestion_cell (Inr \<lparr>index = idx, columns = cols\<rparr>) st) = None \<and>
     frame_of ''energy_data'' (snd (ingestion_cell (Inr \<lparr>index = idx, columns = cols\<rparr>) st)) =
       Some \<lparr>index = map (\<lambda>s. Stamp (Datetime_ns (s * 1000000000))) ts,
             columns = [(name, vs)]\<rparr>"
proof -
  have one: "filter (\<lambda>col. fst col = ''UNIX_TS'') cols = [(''UNIX_TS'', ts)]"
    using assms(1,2) by auto
  have rest: "filter (\<lambda>col. fst col \<noteq> ''UNIX_TS'') cols = [(name, vs)]"
    using assms(1,2) by auto
  show ?thesis
    by (simp add: ingestion_cell_store [OF one assms(3,4)] rest frame_of_def deref_def nth_append)
qed

theorem ingestion_index_and_columns_witness:
  "''Consumption'' \<noteq> ''UNIX_TS'' \<and>
   length [1333263600, 1333263660 :: int] = length [Pos 0, Pos 1] \<and>
   list_all (\<lambda>s. - 9223372036 \<le> s \<and> s \<le> 9223372036) [1333263600, 1333263660 :: int] \<and>
   fst (ingestion_cell (Inr \<lparr>index = [Pos 0, Pos 1],
          columns = [(''UNIX_TS'', [1333263600, 1333263660]), (''Consumption'', [50, 54])]\<rparr>)
        \<lparr>heap = [], vars = Map.empty\<rparr>) = None \<and>
   frame_of ''energy_data''
     (snd (ingestion_cell (Inr \<lparr>index = [Pos 0, Pos 1],
          columns = [(''UNIX_TS'', [1333263600, 1333263660]), (''Consumption'', [50, 54])]\<rparr>)
        \<lparr>heap = [], vars = Map.empty\<rparr>)) =
     Some \<lparr>index = [Stamp (Datetime_ns 1333263600000000000),
                    Stamp (Datetime_ns 1333263660000000000)],
           columns = [(''Consumption'', [50, 54])]\<rparr>"
  using ingestion_index_and_columns [of
      "[(''UNIX_TS'', [1333263600, 1333263660]), (''Consumption'', [50, 54])]"
      "[1333263600, 1333263660]" "''Consumption''" "[50, 54]" "[Pos 0, Pos 1]"
      "\<lparr>heap = [], vars = Map.empty\<rparr>"]
  by simp

text \<open>
  Claim C9 as stated holds for every input file. A file of the documented shape with the
  second count 9223372037 stops the cell with \<^verbatim>\<open>OutOfBoundsDatetime\<close> at the assignment
  of the index: \<^verbatim>\<open>energy_data\<close> is left as the copy of the raw table, with the positions
  as its index and the \<^verbatim>\<open>UNIX_TS\<close> column still in it.
\<close>

theorem ingestion_out_of_bounds:
  "fst (ingestion_cell (Inr \<lparr>index = [Pos 0],
          columns = [(''UNIX_TS'', [9223372037]), (''Consumption'', [5])]\<rparr>)
        \<lparr>heap = [], vars = Map.empty\<rparr>) =
     Some (OutOfBoundsDatetime ''cannot convert input with unit s'') \<and>
   frame_of ''energy_data''
     (snd (ingestion_cell (Inr \<lparr>index = [Pos 0],
          columns = [(''UNIX_TS'', [9223372037]), (''Consumption'', [5])]\<rparr>)
        \<lparr>heap = [], vars = Map.empty\<rparr>)) =
     Some \<lparr>index = [Pos 0], columns = [(''UNIX_TS'', [9223372037]), (''Consumption'', [5])]\<rparr>"
  by (simp add: ingestion_cell_def and_then_def stmt_read_csv_def stmt_copy_def
      stmt_set_index_def alloc_def bind_var_def deref_def to_datetime_s_def frame_of_def)

text \<open>
  A frame without the column ends the cell with a KeyError, at the assignment of the index,
  and a file that cannot be read ends it at the first statement, with the store as it was.
\<close>

lemma ingestion_without_column:
  "ingestion_cell (Inr \<lparr>index = [Pos 0, Pos 1], columns = [(''Consumption'', [5, 7])]\<rparr>)
     \<lparr>heap = [], vars = Map.empty\<rparr> =
   (Some (KeyError ''UNIX_TS''),
    \<lparr>heap = [\<lparr>index = [Pos 0, Pos 1], columns = [(''Consumption'', [5, 7])]\<rparr>,
             \<lparr>index = [Pos 0, Pos 1], columns = [(''Consumption'', [5, 7])]\<rparr>],
     vars = [''raw_data'' \<mapsto> 0, ''energy_data'' \<mapsto> 1]\<rparr>)"
  by (simp add: ingestion_cell_def and_then_def stmt_read_csv_def stmt_copy_def
      stmt_set_index_def alloc_def bind_var_def deref_def)

lemma ingestion_unread:
  "ingestion_cell (Inl EmptyDataError) st = (Some EmptyDataError, st)"
  by (simp add: ingestion_cell_def and_then_def stmt_read_csv_def)

text \<open>The bounds of the conversion.\<close>

lemma to_datetime_bounds:
  "to_datetime_s 9223372036 = Inr (Datetime_ns 9223372036000000000)"
  "to_datetime_s (- 9223372036) = Inr (Datetime_ns (- 9223372036000000000))"
  "to_datetime_s 9223372037 = Inl (OutOfBoundsDatetime ''cannot convert input with unit s'')"
  "to_datetime_s (- 9223372037) = Inl (OutOfBoundsDatetime ''cannot convert input with unit s'')"
  "to_datetime_s (- 9223372036854775808) = Inr NaT"
  by (simp_all add: to_datetime_s_def)

section \<open>Properties of the warning filters\<close>

lemma quiet_filterwarnings: "quiet (filterwarnings Ignore fs)"
  by (simp add: quiet_def filterwarnings_def)

lemma exec_stmt_quiet: "quiet (filters k) \<Longrightarrow> plain s \<Longrightarrow> exec_stmt oi ra i j s k = k"
  by (cases s) (simp_all add: exec_stmt_def quiet_def)

lemma exec_cell_quiet:
  "quiet (filters k) \<Longrightarrow> list_all plain c \<Longrightarrow> exec_cell oi ra i j c k = k"
  by (induction c arbitrary: j) (simp_all add: exec_stmt_quiet)

lemma run_cells_quiet:
  "quiet (filters k) \<Longrightarrow> list_all (list_all plain) cs \<Longrightarrow> run_cells oi ra i cs k = k"
  by (induction cs arbitrary: i) (simp_all add: exec_cell_quiet)

lemma stages_plain: "list_all (list_all plain) (ingestion_stmts # replicate 23 solution_cell)"
  by (simp add: ingestion_stmts_def solution_cell_def list_all_iff)

lemma filterwarnings_silences:
  "filter (\<lambda>w. disposition (filterwarnings Ignore fs) w \<noteq> Ignore) ws = []"
  by (simp add: filterwarnings_def)

lemma run_notebook_eq:
  "run_notebook oi ra fs =
     exec_cell oi ra 1 0 import_cell (exec_cell oi ra 0 0 download_cell \<lparr>filters = fs, shown = []\<rparr>)"
proof -
  have q: "quiet (filters (exec_cell oi ra 1 0 import_cell k))" for k
    by (simp add: import_cell_def exec_stmt_def Let_def quiet_filterwarnings)
  show ?thesis
    unfolding run_notebook_def notebook_def
    using run_cells_quiet [OF q stages_plain] by simp
qed

text \<open>
  Claim C10. Whatever the imports do to the filters and whatever warnings the statements
  raise, once the notebook has run the filters ignore every warning, and the only
  statements that showed one are in the download cell or the import cell, not after the
  call \<^verbatim>\<open>warnings.filterwarnings("ignore")\<close> of the cell (statement 5 in both): the
  imports and \<^verbatim>\<open>path = Path()\<close>. No statement of the download loop, of the ingestion
  cell or of a later cell shows a warning.
\<close>

theorem later_stages_show_no_warning:
  "disposition (filters (run_notebook on_import raised fs)) w = Ignore \<and>
   (\<forall>(i, j, v) \<in> set (shown (run_notebook on_import raised fs)). i < 2 \<and> j \<le> 5)"
proof
  have q: "quiet (filters (exec_cell oi ra 1 0 import_cell k))" for k oi ra
    by (simp add: import_cell_def exec_stmt_def Let_def quiet_filterwarnings)
  then show "disposition (filters (run_notebook on_import raised fs)) w = Ignore"
    by (simp add: run_notebook_eq quiet_def)
  show "\<forall>(i, j, v) \<in> set (shown (run_notebook on_import raised fs)). i < 2 \<and> j \<le> 5"
    unfolding run_notebook_eq
    by (auto simp add: import_cell_def download_cell_def exec_stmt_def Let_def
        filterwarnings_silences)
qed


theorem later_stages_show_no_warning_witness:
  "(0, 0, \<lparr>category = ''DeprecationWarning'', message = ''old''\<rparr>) \<in>
     set (shown (run_notebook (\<lambda>m fs. fs)
       (\<lambda>i j. if j = 0 then [\<lparr>category = ''DeprecationWarning'', message = ''old''\<rparr>] else [])
       [])) \<and>
   disposition (filters (run_notebook (\<lambda>m fs. fs)
       (\<lambda>i j. if j = 0 then [\<lparr>category = ''DeprecationWarning'', message = ''old''\<rparr>] else [])
       [])) \<lparr>category = ''DtypeWarning'', message = ''mixed types''\<rparr> = Ignore \<and>
   (0::nat) < 2 \<and> (0::nat) \<le> 5"
proof -
  have "(0, 0, \<lparr>category = ''DeprecationWarning'', message = ''old''\<rparr>) \<in>
     set (shown (run_notebook (\<lambda>m fs. fs)
       (\<lambda>i j. if j = 0 then [\<lparr>category = ''DeprecationWarning'', message = ''old''\<rparr>] else [])
       []))"
    by (simp add: run_notebook_eq import_cell_def download_cell_def exec_stmt_def Let_def)
  then show ?thesis
    using later_stages_show_no_warning [of "\<lambda>m fs. fs"
        "\<lambda>i j. if j = 0 then [\<lparr>category = ''DeprecationWarning'', message = ''old''\<rparr>] else []"
        "[]" "\<lparr>category = ''DtypeWarning'', message = ''mixed types''\<rparr>"]
    by simp
qed

text \<open>Without the two cells, a warning raised in the ingestion cell is shown.\<close>

lemma unfiltered_stage_shows_warning:
  "shown (run_cells (\<lambda>m fs. fs) (\<lambda>i j. if j = 0 then [w] else []) 0 [ingestion_stmts]
            \<lparr>filters = [], shown = []\<rparr>) = [(0, 0, w)]"
  by (simp add: ingestion_stmts_def exec_stmt_def Let_def)

section \<open>Properties of the split and of the zero-value fill\<close>

lemma split_sorted_append:
  "sorted (map fst xs) \<Longrightarrow>
     filter (\<lambda>r. fst r < c) xs @ filter (\<lambda>r. c \<le> fst r) xs = (xs :: (int \<times> 'a) list)"
proof (induction xs)
  case Nil
  then show ?case by simp
next
  case (Cons r rs)
  show ?case
  proof (cases "fst r < c")
    case True
    with Cons show ?thesis by simp
  next
    case False
    with Cons.prems have late: "\<forall>q\<in>set rs. c \<le> fst q" by auto
    then have "filter (\<lambda>r. fst r < c) rs = []" and "filter (\<lambda>r. c \<le> fst r) rs = rs"
      by (auto simp: filter_empty_conv filter_id_conv)
    with False show ?thesis by simp
  qed
qed

text \<open>
  Claim C3. The split at a cutoff is a partition of the timeline: every train row is
  strictly before the cutoff and every test row at or after it, no timestamp is in both
  parts, and the two parts together hold every row, and so every timestamp, as often as the
  table does: exactly once for a table whose timestamps are unique. For a table in the order
  of time, the train table followed by the test table is the table itself.
\<close>

theorem split_is_partition:
  assumes "split_manager cutoff table = (train, test)"
  shows "(\<forall>r\<in>set train. fst r < cutoff) \<and> (\<forall>r\<in>set test. cutoff \<le> fst r) \<and>
         set (map fst train) \<inter> set (map fst test) = {} \<and>
         mset (map fst train) + mset (map fst test) = mset (map fst table) \<and>
         mset train + mset test = mset table \<and>
         (distinct (map fst table) \<longrightarrow> distinct (map fst (train @ test))) \<and>
         (sorted (map fst table) \<longrightarrow> train @ test = table)"
proof -
  have tr: "train = filter (\<lambda>r. fst r < cutoff) table"
    and te: "test = filter (\<lambda>r. cutoff \<le> fst r) table"
    using assms by (simp_all add: split_manager_def)
  have compl: "(\<lambda>r. cutoff \<le> fst r) = (\<lambda>r::int \<times> 'a. \<not> fst r < cutoff)"
    by (simp add: fun_eq_iff not_less)
  have rows: "mset train + mset test = mset table"
    unfolding tr te compl by simp
  have keys: "mset (map fst train) + mset (map fst test) = mset (map fst table)"
    using arg_cong [OF rows, of "image_mset fst"] by simp
  have dist: "distinct (map fst (train @ test))" if "distinct (map fst table)"
  proof -
    have "mset (map fst (train @ test)) = mset (map fst table)"
      using keys by simp
    then show ?thesis using that by (metis mset_eq_imp_distinct_iff)
  qed
  have "set (map fst train) \<inter> set (map fst test) = {}"
    unfolding tr te by auto
  moreover have "\<forall>r\<in>set train. fst r < cutoff" "\<forall>r\<in>set test. cutoff \<le> fst r"
    unfolding tr te by simp_all
  moreover have "train @ test = table" if "sorted (map fst table)"
    unfolding tr te using that by (rule split_sorted_append)
  ultimately show ?thesis using rows keys dist by blast
qed

theorem split_is_partition_witness:
  "split_manager 7200 [(0, 50::real), (3600, 52), (7200, 54), (10800, 51)] =
     ([(0, 50), (3600, 52)], [(7200, 54), (10800, 51)]) \<and>
   distinct (map fst [(0::int, 50::real), (3600, 52), (7200, 54), (10800, 51)]) \<and>
   sorted (map fst [(0::int, 50::real), (3600, 52), (7200, 54), (10800, 51)]) \<and>
   (3600, 52) \<in> set [(0::int, 50::real), (3600, 52)] \<and> fst (3600::int, 52::real) < 7200 \<and>
   (7200, 54) \<in> set [(7200::int, 54::real), (10800, 51)] \<and> 7200 \<le> fst (7200::int, 54::real) \<and>
   distinct (map fst ([(0::int, 50::real), (3600, 52)] @ [(7200, 54), (10800, 51)])) \<and>
   [(0, 50), (3600, 52)] @ [(7200, 54), (10800, 51)] =
     [(0::int, 50::real), (3600, 52), (7200, 54), (10800, 51)]"
proof -
  have h: "split_manager 7200 [(0, 50::real), (3600, 52), (7200, 54), (10800, 51)] =
     ([(0, 50), (3600, 52)], [(7200, 54), (10800, 51)])"
    by (simp add: split_manager_def)
  show ?thesis
    using h split_is_partition [OF h] by simp
qed

lemma carry_forward_keys: "map fst (carry_forward c s) = map fst s"
  by (induction c s rule: carry_forward.induct) simp_all

lemma carry_forward_before:
  assumes "sorted_wrt (<) (map fst s)" and "(t, v) \<in> set s" and "defect v"
    and "\<forall>(u, w) \<in> set s. u < t \<longrightarrow> defect w"
  shows "map_of (carry_forward c s) t = Some c"
  using assms
proof (induction s)
  case Nil
  then show ?case by simp
next
  case (Cons r rs)
  obtain u w where r: "r = (u, w)" by (cases r)
  from Cons.prems(1) have later: "\<forall>q\<in>set rs. u < fst q" and srt: "sorted_wrt (<) (map fst rs)"
    by (auto simp: r)
  show ?case
  proof (cases "u = t")
    case True
    with later Cons.prems(2) have "w = v" by (auto simp: r)
    with True Cons.prems(3) show ?thesis by (simp add: r)
  next
    case False
    with Cons.prems(2) have mem: "(t, v) \<in> set rs" by (simp add: r)
    with later have "u < t" by auto
    with Cons.prems(4) have dw: "defect w" by (simp add: r)
    have "map_of (carry_forward c rs) t = Some c"
      using Cons.IH [OF srt mem Cons.prems(3)] Cons.prems(4) by simp
    with False dw show ?thesis by (simp add: r)
  qed
qed

lemma carry_forward_last_valid:
  assumes "sorted_wrt (<) (map fst s)" and "(t, v) \<in> set s" and "defect v"
    and "(t', Some x) \<in> set s" and "x \<noteq> 0" and "t' < t"
    and "\<forall>(u, w) \<in> set s. t' < u \<and> u < t \<longrightarrow> defect w"
  shows "map_of (carry_forward c s) t = Some (Some x)"
  using assms
proof (induction s arbitrary: c)
  case Nil
  then show ?case by simp
next
  case (Cons r rs)
  obtain u w where r: "r = (u, w)" by (cases r)
  from Cons.prems(1) have later: "\<forall>q\<in>set rs. u < fst q" and srt: "sorted_wrt (<) (map fst rs)"
    by (auto simp: r)
  have valid: "\<not> defect (Some x)" using Cons.prems(5) by (simp add: defect_def)
  show ?case
  proof (cases "u = t'")
    case True
    with later Cons.prems(4) have w: "w = Some x" by (auto simp: r)
    from True Cons.prems(6) Cons.prems(2) have mem: "(t, v) \<in> set rs" by (auto simp: r)
    have "\<forall>(u', w') \<in> set rs. u' < t \<longrightarrow> defect w'"
    proof clarify
      fix u' w'
      assume in_rs: "(u', w') \<in> set rs" and "u' < t"
      from later in_rs True have "t' < u'" by fastforce
      with \<open>u' < t\<close> in_rs Cons.prems(7) show "defect w'" by fastforce
    qed
    from carry_forward_before [OF srt mem Cons.prems(3) this]
    have "map_of (carry_forward (Some x) rs) t = Some (Some x)" .
    with True w valid Cons.prems(6) show ?thesis by (simp add: r)
  next
    case False
    with Cons.prems(4) have mem': "(t', Some x) \<in> set rs" by (simp add: r)
    with later have "u < t'" by auto
    with Cons.prems(6) have "u \<noteq> t" by simp
    with Cons.prems(2) have mem: "(t, v) \<in> set rs" by (simp add: r)
    have btw: "\<forall>(u', w') \<in> set rs. t' < u' \<and> u' < t \<longrightarrow> defect w'"
      using Cons.prems(7) by simp
    have "map_of (carry_forward c' rs) t = Some (Some x)" for c'
      using Cons.IH [OF srt mem Cons.prems(3) mem' Cons.prems(5) Cons.prems(6) btw] .
    with \<open>u \<noteq> t\<close> show ?thesis by (simp add: r)
  qed
qed

text \<open>
  Claim C5. In a series in the order of time, a reading of 0 (or a null) at time \<open>t\<close> is
  replaced by the nearest reading before it that is neither zero nor null: the reading
  \<open>x\<close> at \<open>t'\<close>, when every reading between \<open>t'\<close> and \<open>t\<close> is a defect. So a zero
  between the readings 50 and 54 becomes 50, the reading before it.
\<close>

theorem zero_fill_carries_last_reading:
  assumes "sorted_wrt (<) (map fst s)" and "(t, v) \<in> set s" and "defect v"
    and "(t', Some x) \<in> set s" and "x \<noteq> 0" and "t' < t"
    and "\<forall>(u, w) \<in> set s. t' < u \<and> u < t \<longrightarrow> defect w"
  shows "map_of (zero_fill s) t = Some (Some x)"
proof -
  let ?P = "\<lambda>r::int \<times> 'a option. defect (snd r)"
  let ?A = "takeWhile ?P s" and ?B = "dropWhile ?P s"
  have split: "s = ?A @ ?B" by simp
  have valid: "\<not> defect (Some x)" using assms(5) by (simp add: defect_def)
  have "(t', Some x) \<notin> set ?A"
    using valid by (auto dest: set_takeWhileD)
  with assms(4) have memB': "(t', Some x) \<in> set ?B"
    by (metis split Un_iff set_append)
  have srt: "sorted_wrt (<) (map fst ?A @ map fst ?B)"
    using assms(1) by (metis split map_append)
  then have srtB: "sorted_wrt (<) (map fst ?B)"
    and order: "\<forall>a\<in>set ?A. \<forall>b\<in>set ?B. fst a < fst b"
    by (auto simp: sorted_wrt_append)
  have "(t, v) \<notin> set ?A"
  proof
    assume "(t, v) \<in> set ?A"
    with order memB' have "t < t'" by fastforce
    with assms(6) show False by simp
  qed
  with assms(2) have memB: "(t, v) \<in> set ?B"
    by (metis split Un_iff set_append)
  have btw: "\<forall>(u, w) \<in> set ?B. t' < u \<and> u < t \<longrightarrow> defect w"
    using assms(7) by (auto dest: set_dropWhileD)
  show ?thesis
    unfolding zero_fill_def
    by (rule carry_forward_last_valid [OF srtB memB assms(3) memB' assms(5) assms(6) btw])
qed

theorem zero_fill_carries_last_reading_witness:
  "sorted_wrt (<) (map fst [(0::int, Some (50::real)), (3600, Some 0), (7200, Some 54)]) \<and>
   (3600, Some 0) \<in> set [(0::int, Some (50::real)), (3600, Some 0), (7200, Some 54)] \<and>
   defect (Some (0::real)) \<and>
   (0, Some 50) \<in> set [(0::int, Some (50::real)), (3600, Some 0), (7200, Some 54)] \<and>
   (50::real) \<noteq> 0 \<and> (0::int) < 3600 \<and>
   map_of (zero_fill [(0, Some (50::real)), (3600, Some 0), (7200, Some 54)]) 3600 =
     Some (Some 50)"
proof -
  have "map_of (zero_fill [(0, Some (50::real)), (3600, Some 0), (7200, Some 54)]) 3600 =
      Some (Some 50)"
    by (rule zero_fill_carries_last_reading [where t' = 0 and v = "Some 0"])
      (simp_all add: defect_def)
  then show ?thesis by (simp add: defect_def)
qed

text \<open>
  The whole series of that scenario, and one with a leading dropout and a dropout of two
  rows, one of them a null.
\<close>

lemma scenario_b:
  "zero_fill [(0, Some (50::real)), (3600, Some 0), (7200, Some 54)] =
     [(0, Some 50), (3600, Some 50), (7200, Some 54)]"
  by (simp add: zero_fill_def defect_def)

lemma zero_fill_long_dropout:
  "zero_fill [(0, Some (0::real)), (60, Some 50), (120, Some 0), (180, None), (240, Some 54)] =
     [(60, Some 50), (120, Some 50), (180, Some 50), (240, Some 54)]"
  by (simp add: zero_fill_def defect_def)

end
